theory Spec2Isabelle
  imports Complex_Main
begin

section \<open>Data model of the database service\<close>

text \<open>
  The service (services/database\_service.py) keeps three stores: the DynamoDB table of
  memory metadata, the DynamoDB table of embeddings and the process-local dictionary
  \<open>vector_store\<close>. A Python dictionary iterates in insertion order and the result of
  a search depends on that order, so the dictionary and the scanned table are association
  lists; the metadata table is only read by key and is a map.
\<close>

type_synonym vec = "real list"

record memory =
  mem_id :: string
  mem_user_id :: "string option"
  mem_content :: string
  mem_type :: string
  mem_metadata :: "(string \<times> string) list"
  mem_created_at :: string
  mem_updated_at :: string
  mem_source :: "string option"
  mem_summary :: "string option"
  mem_tags :: "string list"

text \<open>
  An attribute of a stored embedding: a Decimal, which \<open>float(x)\<close> converts, or anything
  else, on which \<open>float(x)\<close> raises.
\<close>

datatype attr = Num real | NonNumeric

record vector_item =
  vi_id :: string
  vi_user_id :: "string option"
  vi_embedding :: "attr list option"
  vi_memory_id :: string
  vi_created_at :: string

record index_entry =
  ie_embedding :: vec
  ie_memory_id :: string
  ie_user_id :: "string option"

record db =
  dynamodb_disabled :: bool
  memories :: "string \<rightharpoonup> memory"
  embeddings :: "(string \<times> vector_item) list"
  vector_store :: "(string \<times> index_entry) list"

text \<open>
  Calls to DynamoDB can raise, and a \<open>scan\<close> answers with one page of the table: the
  items from the start of the scan order that fit into 1 MB. Which calls raise, and how
  many items the first page of a scan holds, are parameters of every operation.
\<close>

record faults =
  put_memory_fails :: bool
  put_vector_fails :: bool
  get_item_fails :: "string \<Rightarrow> bool"
  delete_memory_fails :: bool
  delete_vector_fails :: bool
  scan_fails :: bool
  scan_page :: nat

datatype error = ClientError | ValueError | KeyError | AttributeError

text \<open>Assignment to and deletion from a dictionary: a present key keeps its position.\<close>

fun dict_set :: "string \<Rightarrow> 'v \<Rightarrow> (string \<times> 'v) list \<Rightarrow> (string \<times> 'v) list" where
  "dict_set k v [] = [(k, v)]"
| "dict_set k v ((k', v') # kvs) =
     (if k' = k then (k, v) # kvs else (k', v') # dict_set k v kvs)"

fun dict_del :: "string \<Rightarrow> (string \<times> 'v) list \<Rightarrow> (string \<times> 'v) list" where
  "dict_del k [] = []"
| "dict_del k ((k', v') # kvs) =
     (if k' = k then dict_del k kvs else (k', v') # dict_del k kvs)"

section \<open>Cosine similarity\<close>

text \<open>
  Floats are modelled as reals, with the one value of IEEE arithmetic that the code can
  reach beyond them: \<open>0.0 / 0.0\<close>, which numpy evaluates to \<open>nan\<close> (with a warning, no
  exception). \<open>np.dot\<close> on one-dimensional arrays of different lengths raises ValueError.
\<close>

datatype pyfloat = NaN | Fin real

definition np_dot :: "vec \<Rightarrow> vec \<Rightarrow> error + real" where
  "np_dot a b =
     (if length a = length b then Inr (sum_list (map2 (*) a b)) else Inl ValueError)"

definition linalg_norm :: "vec \<Rightarrow> real" where
  "linalg_norm a = sqrt (sum_list (map (\<lambda>x. x * x) a))"

text \<open>
  \<open>np.dot(a, b) / (np.linalg.norm(a) * np.linalg.norm(b))\<close>. When the product of the
  norms is zero one of the vectors is all zeros, the dot product is zero too
  (lemma \<open>zero_norm_dot\<close> below), and the quotient is \<open>nan\<close>.
\<close>

definition cosine :: "vec \<Rightarrow> vec \<Rightarrow> error + pyfloat" where
  "cosine a b =
     (case np_dot a b of
        Inl e \<Rightarrow> Inl e
      | Inr d \<Rightarrow>
          (if linalg_norm a * linalg_norm b = 0 then Inr NaN
           else Inr (Fin (d / (linalg_norm a * linalg_norm b)))))"


text \<open>\<open>similarity >= threshold\<close>: every comparison with \<open>nan\<close> is False.\<close>

fun float_ge :: "pyfloat \<Rightarrow> real \<Rightarrow> bool" where
  "float_ge NaN t = False"
| "float_ge (Fin s) t = (t \<le> s)"

section \<open>Reading and searching\<close>

record search_result =
  sr_memory :: memory
  sr_similarity_score :: pyfloat

text \<open>
  \<open>get_memory_by_id\<close>: None when DynamoDB is disabled or when \<open>get_item\<close> raises
  (the exception is caught), the item otherwise. Like every method of the service it takes
  the state and gives it back.
\<close>

definition get_memory_by_id :: "faults \<Rightarrow> db \<Rightarrow> string \<Rightarrow> memory option \<times> db" where
  "get_memory_by_id f st memory_id =
     (if dynamodb_disabled st then (None, st)
      else if get_item_fails f memory_id then (None, st)
      else (memories st memory_id, st))"

text \<open>
  The loop of \<open>semantic_search\<close> over \<open>self.vector_store.items()\<close>; \<open>results\<close> is the
  list built so far. The field \<open>search_time\<close> of a result is wall-clock time and is left out.
\<close>

fun search_loop ::
  "faults \<Rightarrow> vec \<Rightarrow> string \<Rightarrow> real \<Rightarrow> (string \<times> index_entry) list \<Rightarrow>
   search_result list \<Rightarrow> db \<Rightarrow> (error + search_result list) \<times> db" where
  "search_loop f q uid thr [] results st = (Inr results, st)"
| "search_loop f q uid thr ((memory_id, vector_data) # rest) results st =
     (if ie_user_id vector_data \<noteq> Some uid then search_loop f q uid thr rest results st
      else (case cosine q (ie_embedding vector_data) of
              Inl e \<Rightarrow> (Inl e, st)
            | Inr similarity \<Rightarrow>
                (if float_ge similarity thr then
                   (case get_memory_by_id f st memory_id of
                      (None, st') \<Rightarrow> search_loop f q uid thr rest results st'
                    | (Some m, st') \<Rightarrow>
                        (if mem_user_id m = Some uid
                         then search_loop f q uid thr rest
                                (results @ [\<lparr>sr_memory = m, sr_similarity_score = similarity\<rparr>]) st'
                         else search_loop f q uid thr rest results st'))
                 else search_loop f q uid thr rest results st)))"

text \<open>
  The key of \<open>results.sort(key=..., reverse=True)\<close>. No \<open>nan\<close> reaches the sort
  (lemma \<open>search_loop_scores\<close>), so its key is immaterial.
\<close>

fun score_key :: "pyfloat \<Rightarrow> real" where
  "score_key NaN = 0"
| "score_key (Fin s) = s"

text \<open>
  Python's sort is stable, and with \<open>reverse=True\<close> elements with equal keys keep
  their original order: a stable ascending sort on the negated key.
\<close>

definition sort_results :: "search_result list \<Rightarrow> search_result list" where
  "sort_results results = sort_key (\<lambda>r. - score_key (sr_similarity_score r)) results"

text \<open>\<open>xs[:n]\<close>: a negative bound counts from the end.\<close>

definition slice_to :: "int \<Rightarrow> 'a list \<Rightarrow> 'a list" where
  "slice_to n xs = (if 0 \<le> n then take (nat n) xs else take (length xs - nat (- n)) xs)"

definition semantic_search ::
  "faults \<Rightarrow> db \<Rightarrow> vec \<Rightarrow> string \<Rightarrow> int \<Rightarrow> real \<Rightarrow> (error + search_result list) \<times> db" where
  "semantic_search f st query_embedding uid limit thr =
     (case search_loop f query_embedding uid thr (vector_store st) [] st of
        (Inl e, st') \<Rightarrow> (Inl e, st')
      | (Inr results, st') \<Rightarrow> (Inr (slice_to limit (sort_results results)), st'))"

section \<open>Creating and deleting\<close>

text \<open>
  \<open>create_memory\<close>. The identifier (\<open>uuid.uuid4()\<close>) and the timestamp
  (\<open>datetime.utcnow()\<close>) are parameters. The result is None when DynamoDB is disabled,
  the identifier after the three writes, and the exception of a failed \<open>put_item\<close>,
  re-raised at the point where it occurred.
\<close>

definition create_memory ::
  "faults \<Rightarrow> db \<Rightarrow> string \<Rightarrow> string \<Rightarrow> string \<Rightarrow> string \<Rightarrow> vec \<Rightarrow> string \<Rightarrow>
   (string \<times> string) list option \<Rightarrow> string option \<Rightarrow> string option \<Rightarrow> string list option \<Rightarrow>
   (error + string option) \<times> db" where
  "create_memory f st memory_id now content memory_type embedding uid metadata source summary tags =
     (if dynamodb_disabled st then (Inr None, st)
      else
        let memory_data = \<lparr>mem_id = memory_id, mem_user_id = Some uid, mem_content = content,
                             mem_type = memory_type,
                             mem_metadata = (case metadata of None \<Rightarrow> [] | Some md \<Rightarrow> md),
                             mem_created_at = now, mem_updated_at = now,
                             mem_source = source, mem_summary = summary,
                             mem_tags = (case tags of None \<Rightarrow> [] | Some ts \<Rightarrow> ts)\<rparr>;
            vector_data = \<lparr>vi_id = memory_id, vi_user_id = Some uid,
                             vi_embedding = Some (map Num embedding),
                             vi_memory_id = memory_id, vi_created_at = now\<rparr>
        in if put_memory_fails f then (Inl ClientError, st)
           else
             let st1 = st\<lparr>memories := (memories st)(memory_id \<mapsto> memory_data)\<rparr>
             in if put_vector_fails f then (Inl ClientError, st1)
                else
                  let st2 = st1\<lparr>embeddings := dict_set memory_id vector_data (embeddings st1)\<rparr>;
                      st3 = st2\<lparr>vector_store :=
                                  dict_set memory_id
                                    \<lparr>ie_embedding = embedding, ie_memory_id = memory_id,
                                     ie_user_id = Some uid\<rparr>
                                    (vector_store st2)\<rparr>
                  in (Inr (Some memory_id), st3))"

text \<open>
  \<open>delete_memory\<close>: True after the three removals, False when an exception was caught.
  With DynamoDB disabled \<open>self.dynamodb\<close> is None and the first line of the \<open>try\<close> block
  raises. \<open>delete_item\<close> on a key that is not in the table is not an error in DynamoDB.
\<close>

definition delete_memory :: "faults \<Rightarrow> db \<Rightarrow> string \<Rightarrow> bool \<times> db" where
  "delete_memory f st memory_id =
     (if dynamodb_disabled st then (False, st)
      else if delete_memory_fails f then (False, st)
      else
        let st1 = st\<lparr>memories := (memories st)(memory_id := None)\<rparr>
        in if delete_vector_fails f then (False, st1)
           else
             let st2 = st1\<lparr>embeddings := dict_del memory_id (embeddings st1)\<rparr>;
                 st3 = st2\<lparr>vector_store := dict_del memory_id (vector_store st2)\<rparr>
             in (True, st3))"

text \<open>
  The route \<open>DELETE /api/search/memories/{memory_id}\<close> (routers/search.py). It has no
  dependency on the current user: the identifier is its only input.
\<close>

datatype http_error = HTTPException nat string

record delete_response =
  dr_success :: bool
  dr_message :: string

definition delete_memory_route ::
  "faults \<Rightarrow> db \<Rightarrow> string \<Rightarrow> (http_error + delete_response) \<times> db" where
  "delete_memory_route f st memory_id =
     (case delete_memory f st memory_id of
        (success, st') \<Rightarrow>
          (if \<not> success then (Inl (HTTPException 404 ''Memory not found''), st')
           else (Inr \<lparr>dr_success = True,
                      dr_message = ''Memory '' @ memory_id @ '' deleted successfully''\<rparr>, st')))"

section \<open>Loading the vectors at start\<close>






section \<open>The chunker\<close>

text \<open>
  services/parser\_service.py. A Python string is a sequence of code points, and the code
  tests for code points above one byte, so a text is a list of code points.
\<close>

type_synonym ustr = "nat list"

text \<open>The code points for which \<open>str.isspace\<close> holds: what \<open>split()\<close> and \<open>strip()\<close> remove.\<close>

definition is_space :: "nat \<Rightarrow> bool" where
  "is_space c =
     ((9 \<le> c \<and> c \<le> 13) \<or> (28 \<le> c \<and> c \<le> 32) \<or> c = 133 \<or> c = 160 \<or> c = 5760 \<or>
      (8192 \<le> c \<and> c \<le> 8202) \<or> c = 8232 \<or> c = 8233 \<or> c = 8239 \<or> c = 8287 \<or> c = 12288)"

definition strip :: "ustr \<Rightarrow> ustr" where
  "strip s = rev (dropWhile is_space (rev (dropWhile is_space s)))"

text \<open>\<open>text.split()\<close>: the maximal runs of code points that are not white space.\<close>

fun split_ws :: "ustr \<Rightarrow> ustr \<Rightarrow> ustr list" where
  "split_ws cur [] = (if cur = [] then [] else [cur])"
| "split_ws cur (c # cs) =
     (if is_space c then (if cur = [] then split_ws [] cs else cur # split_ws [] cs)
      else split_ws (cur @ [c]) cs)"

text \<open>
  \<open>estimate_tokens\<close>: \<open>int(chinese_chars * 1.2 + english_words * 1.5)\<close>. The sum is a
  non-negative multiple of one tenth, so truncation is the integer quotient.
\<close>

definition estimate_tokens :: "ustr \<Rightarrow> int" where
  "estimate_tokens text =
     (let chinese_chars = length (filter (\<lambda>c. 19968 \<le> c \<and> c \<le> 40959) text);
          english_words = length (split_ws [] text)
      in int ((12 * chinese_chars + 15 * english_words) div 10))"

text \<open>
  \<open>s.split(sep)\<close> for a separator that is not empty: the matches are found from the left
  and do not overlap; \<open>cur\<close> is the piece read so far.
\<close>

function split_sep :: "ustr \<Rightarrow> ustr \<Rightarrow> ustr \<Rightarrow> ustr list" where
  "split_sep sep cur [] = [cur]"
| "split_sep sep cur (c # cs) =
     (if sep \<noteq> [] \<and> take (length sep) (c # cs) = sep
      then cur # split_sep sep [] (drop (length sep) (c # cs))
      else split_sep sep (cur @ [c]) cs)"
  by pat_completeness auto
termination
  by (relation "measure (\<lambda>(sep, cur, s). length s)") auto

definition full_stop :: nat where
  "full_stop = 12290"

definition newline :: nat where
  "newline = 10"

text \<open>The loop of \<open>_split_long_paragraph\<close> over the sentences.\<close>

fun sentence_loop :: "int \<Rightarrow> ustr list \<Rightarrow> ustr list \<Rightarrow> ustr \<Rightarrow> ustr list" where
  "sentence_loop max_tokens [] chunks current_chunk =
     (if current_chunk \<noteq> [] then chunks @ [strip current_chunk] else chunks)"
| "sentence_loop max_tokens (sentence # rest) chunks current_chunk =
     (if strip sentence = [] then sentence_loop max_tokens rest chunks current_chunk
      else if estimate_tokens (current_chunk @ sentence) \<le> max_tokens
      then sentence_loop max_tokens rest chunks (current_chunk @ sentence @ [full_stop])
      else sentence_loop max_tokens rest
             (if current_chunk \<noteq> [] then chunks @ [strip current_chunk] else chunks)
             (sentence @ [full_stop]))"

definition split_long_paragraph :: "ustr \<Rightarrow> int \<Rightarrow> ustr list" where
  "split_long_paragraph paragraph max_tokens =
     sentence_loop max_tokens (split_sep [full_stop] [] paragraph) [] []"

text \<open>The loop of \<open>_split_text_into_chunks\<close> over the paragraphs.\<close>

fun paragraph_loop :: "int \<Rightarrow> ustr list \<Rightarrow> ustr list \<Rightarrow> ustr \<Rightarrow> ustr list" where
  "paragraph_loop max_tokens [] chunks current_chunk =
     (if current_chunk \<noteq> [] then chunks @ [strip current_chunk] else chunks)"
| "paragraph_loop max_tokens (paragraph # rest) chunks current_chunk =
     (if max_tokens < estimate_tokens paragraph
      then paragraph_loop max_tokens rest
             ((if current_chunk \<noteq> [] then chunks @ [strip current_chunk] else chunks)
              @ split_long_paragraph paragraph max_tokens)
             []
      else if estimate_tokens (current_chunk @ paragraph) \<le> max_tokens
      then paragraph_loop max_tokens rest chunks (current_chunk @ paragraph @ [newline, newline])
      else paragraph_loop max_tokens rest
             (if current_chunk \<noteq> [] then chunks @ [strip current_chunk] else chunks)
             (paragraph @ [newline, newline]))"

definition default_max_tokens :: int where
  "default_max_tokens = 6000"

definition split_text_into_chunks :: "ustr \<Rightarrow> int option \<Rightarrow> ustr list" where
  "split_text_into_chunks text max_tokens_arg =
     (let max_tokens = (case max_tokens_arg of None \<Rightarrow> default_max_tokens | Some n \<Rightarrow> n)
      in if estimate_tokens text \<le> max_tokens then [text]
         else paragraph_loop max_tokens (split_sep [newline, newline] [] text) [] [])"

section \<open>Example states\<close>

definition no_faults :: faults where
  "no_faults = \<lparr>put_memory_fails = False, put_vector_fails = False,
                 get_item_fails = (\<lambda>k. False), delete_memory_fails = False,
                 delete_vector_fails = False, scan_fails = False, scan_page = 100\<rparr>"

text \<open>A scan whose first page holds one item.\<close>

definition one_item_page :: faults where
  "one_item_page = no_faults\<lparr>scan_page := 1\<rparr>"

definition vector_write_fails :: faults where
  "vector_write_fails = no_faults\<lparr>put_vector_fails := True\<rparr>"

definition example_memory :: "string \<Rightarrow> string \<Rightarrow> memory" where
  "example_memory k uid =
     \<lparr>mem_id = k, mem_user_id = Some uid, mem_content = ''Meeting notes: discuss Q3 roadmap'',
      mem_type = ''text'', mem_metadata = [], mem_created_at = ''2024-01-01T00:00:00'',
      mem_updated_at = ''2024-01-01T00:00:00'', mem_source = None, mem_summary = None,
      mem_tags = []\<rparr>"

definition example_item :: "string \<Rightarrow> string \<Rightarrow> attr list \<Rightarrow> vector_item" where
  "example_item k uid emb =
     \<lparr>vi_id = k, vi_user_id = Some uid, vi_embedding = Some emb, vi_memory_id = k,
      vi_created_at = ''2024-01-01T00:00:00''\<rparr>"

definition example_entry :: "string \<Rightarrow> string \<Rightarrow> vec \<Rightarrow> index_entry" where
  "example_entry k uid emb = \<lparr>ie_embedding = emb, ie_memory_id = k, ie_user_id = Some uid\<rparr>"

text \<open>Two tenants with one memory each, and the same embedding.\<close>

definition example_db :: db where
  "example_db =
     \<lparr>dynamodb_disabled = False,
      memories = [''m1'' \<mapsto> example_memory ''m1'' ''u1'', ''m2'' \<mapsto> example_memory ''m2'' ''u2''],
      embeddings = [(''m1'', example_item ''m1'' ''u1'' [Num 1, Num 0, Num 0]),
                    (''m2'', example_item ''m2'' ''u2'' [Num 1, Num 0, Num 0])],
      vector_store = [(''m1'', example_entry ''m1'' ''u1'' [1, 0, 0]),
                      (''m2'', example_entry ''m2'' ''u2'' [1, 0, 0])]\<rparr>"

text \<open>One tenant with two memories of the same embedding, indexed in either order.\<close>

definition tie_db :: "string \<Rightarrow> string \<Rightarrow> db" where
  "tie_db k1 k2 =
     \<lparr>dynamodb_disabled = False,
      memories = [''m1'' \<mapsto> example_memory ''m1'' ''u1'', ''m2'' \<mapsto> example_memory ''m2'' ''u1''],
      embeddings = [],
      vector_store = [(k1, example_entry k1 ''u1'' [1, 0, 0]),
                      (k2, example_entry k2 ''u1'' [1, 0, 0])]\<rparr>"

text \<open>An index entry whose metadata record is gone.\<close>

definition stale_db :: db where
  "stale_db =
     \<lparr>dynamodb_disabled = False, memories = Map.empty, embeddings = [],
      vector_store = [(''m1'', example_entry ''m1'' ''u1'' [1, 0, 0])]\<rparr>"

text \<open>
  An embeddings table whose first item has no tenant and another dimension, and one whose
  first item cannot be converted; the index is empty.
\<close>

definition odd_db :: db where
  "odd_db =
     \<lparr>dynamodb_disabled = False, memories = Map.empty,
      embeddings = [(''m1'', \<lparr>vi_id = ''m1'', vi_user_id = None, vi_embedding = Some [Num 1],
                              vi_memory_id = ''m1'', vi_created_at = ''2024-01-01T00:00:00''\<rparr>),
                    (''m2'', example_item ''m2'' ''u1'' [Num 1, Num 0, Num 0])],
      vector_store = []\<rparr>"

definition damaged_db :: db where
  "damaged_db =
     \<lparr>dynamodb_disabled = False, memories = Map.empty,
      embeddings = [(''m1'', example_item ''m1'' ''u1'' [Num 1, NonNumeric, Num 0]),
                    (''m2'', example_item ''m2'' ''u1'' [Num 1, Num 0, Num 0])],
      vector_store = []\<rparr>"

section \<open>Properties of the search loop\<close>

lemma get_memory_by_id_state: "snd (get_memory_by_id f st k) = st"
  by (simp add: get_memory_by_id_def)

lemma get_memory_by_id_pair:
  "get_memory_by_id f st k = (fst (get_memory_by_id f st k), st)"
  by (simp add: get_memory_by_id_def)

lemma search_loop_Cons:
  "search_loop f q uid thr ((k, vd) # rest) acc st =
     (if ie_user_id vd \<noteq> Some uid then search_loop f q uid thr rest acc st
      else (case cosine q (ie_embedding vd) of
              Inl e \<Rightarrow> (Inl e, st)
            | Inr similarity \<Rightarrow>
                (if float_ge similarity thr then
                   (case fst (get_memory_by_id f st k) of
                      None \<Rightarrow> search_loop f q uid thr rest acc st
                    | Some m \<Rightarrow>
                        (if mem_user_id m = Some uid
                         then search_loop f q uid thr rest
                                (acc @ [\<lparr>sr_memory = m, sr_similarity_score = similarity\<rparr>]) st
                         else search_loop f q uid thr rest acc st))
                 else search_loop f q uid thr rest acc st)))"
proof -
  obtain m where g: "get_memory_by_id f st k = (m, st)"
    using get_memory_by_id_pair by blast
  show ?thesis by (simp add: g split: sum.splits option.splits)
qed

declare search_loop.simps(2) [simp del]

lemma search_loop_state: "snd (search_loop f q uid thr idx acc st) = st"
proof (induction idx arbitrary: acc)
  case Nil
  show ?case by simp
next
  case (Cons p idx)
  obtain k vd where p: "p = (k, vd)" by (cases p)
  show ?case
    unfolding p search_loop_Cons
    by (simp add: Cons.IH split: sum.splits option.splits)
qed

lemma search_loop_step:
  assumes "search_loop f q uid thr ((k, vd) # rest) acc st = (Inr results, st')"
  shows "\<exists>acc'. search_loop f q uid thr rest acc' st = (Inr results, st') \<and>
           (acc' = acc \<or>
            (\<exists>s m. acc' = acc @ [\<lparr>sr_memory = m, sr_similarity_score = s\<rparr>] \<and>
               ie_user_id vd = Some uid \<and> cosine q (ie_embedding vd) = Inr s \<and>
               float_ge s thr \<and> fst (get_memory_by_id f st k) = Some m \<and>
               mem_user_id m = Some uid))"
  using assms unfolding search_loop_Cons
  by (auto split: if_splits sum.splits option.splits)

lemma search_loop_sound:
  "search_loop f q uid thr idx acc st = (Inr results, st') \<Longrightarrow> r \<in> set results \<Longrightarrow>
   r \<in> set acc \<or>
   (\<exists>k vd. (k, vd) \<in> set idx \<and> ie_user_id vd = Some uid \<and>
      cosine q (ie_embedding vd) = Inr (sr_similarity_score r) \<and>
      float_ge (sr_similarity_score r) thr \<and>
      fst (get_memory_by_id f st k) = Some (sr_memory r) \<and>
      mem_user_id (sr_memory r) = Some uid)"
proof (induction idx arbitrary: acc)
  case Nil
  then show ?case by simp
next
  case (Cons p idx)
  obtain k vd where p: "p = (k, vd)" by (cases p)
  from search_loop_step [OF Cons.prems(1) [unfolded p]] obtain acc' where
    run: "search_loop f q uid thr idx acc' st = (Inr results, st')" and
    acc': "acc' = acc \<or>
            (\<exists>s m. acc' = acc @ [\<lparr>sr_memory = m, sr_similarity_score = s\<rparr>] \<and>
               ie_user_id vd = Some uid \<and> cosine q (ie_embedding vd) = Inr s \<and>
               float_ge s thr \<and> fst (get_memory_by_id f st k) = Some m \<and>
               mem_user_id m = Some uid)"
    by blast
  from Cons.IH [OF run Cons.prems(2)] acc' show ?case
    unfolding p by fastforce
qed

lemma search_loop_acc:
  "search_loop f q uid thr idx acc st = (Inr results, st') \<Longrightarrow> set acc \<subseteq> set results"
proof (induction idx arbitrary: acc)
  case Nil
  then show ?case by simp
next
  case (Cons p idx)
  obtain k vd where p: "p = (k, vd)" by (cases p)
  from search_loop_step [OF Cons.prems(1) [unfolded p]] obtain acc' where
    run: "search_loop f q uid thr idx acc' st = (Inr results, st')" and
    acc': "set acc \<subseteq> set acc'"
    by fastforce
  from Cons.IH [OF run] acc' show ?case by blast
qed

lemma search_loop_complete:
  "search_loop f q uid thr idx acc st = (Inr results, st') \<Longrightarrow>
   (k, vd) \<in> set idx \<Longrightarrow> ie_user_id vd = Some uid \<Longrightarrow>
   cosine q (ie_embedding vd) = Inr s \<Longrightarrow> float_ge s thr \<Longrightarrow>
   fst (get_memory_by_id f st k) = Some m \<Longrightarrow> mem_user_id m = Some uid \<Longrightarrow>
   \<lparr>sr_memory = m, sr_similarity_score = s\<rparr> \<in> set results"
proof (induction idx arbitrary: acc)
  case Nil
  then show ?case by simp
next
  case (Cons p idx)
  obtain k' vd' where p: "p = (k', vd')" by (cases p)
  show ?case
  proof (cases "(k, vd) = (k', vd')")
    case True
    then have eq: "k' = k" "vd' = vd" by simp_all
    from Cons.prems(1) have
      "search_loop f q uid thr idx (acc @ [\<lparr>sr_memory = m, sr_similarity_score = s\<rparr>]) st
         = (Inr results, st')"
      unfolding p eq search_loop_Cons using Cons.prems(3-7) by simp
    from search_loop_acc [OF this] show ?thesis by simp
  next
    case False
    with Cons.prems(2) have mem: "(k, vd) \<in> set idx" by (auto simp: p)
    from search_loop_step [OF Cons.prems(1) [unfolded p]] obtain acc' where
      "search_loop f q uid thr idx acc' st = (Inr results, st')"
      by blast
    from Cons.IH [OF this mem Cons.prems(3-7)] show ?thesis .
  qed
qed




lemma set_slice_to: "set (slice_to n xs) \<subseteq> set xs"
  by (auto simp: slice_to_def dest: in_set_takeD)

lemma set_sort_results: "set (sort_results xs) = set xs"
  by (simp add: sort_results_def)

lemma semantic_search_Inr:
  "semantic_search f st q uid limit thr = (Inr rs, st') \<Longrightarrow>
   \<exists>results. search_loop f q uid thr (vector_store st) [] st = (Inr results, st') \<and>
     rs = slice_to limit (sort_results results)"
  by (auto simp: semantic_search_def split: prod.splits sum.splits)

lemma semantic_search_sound:
  assumes "semantic_search f st q uid limit thr = (Inr rs, st')" and "r \<in> set rs"
  shows "\<exists>k vd. (k, vd) \<in> set (vector_store st) \<and> ie_user_id vd = Some uid \<and>
      cosine q (ie_embedding vd) = Inr (sr_similarity_score r) \<and>
      float_ge (sr_similarity_score r) thr \<and>
      fst (get_memory_by_id f st k) = Some (sr_memory r) \<and>
      mem_user_id (sr_memory r) = Some uid"
proof -
  from semantic_search_Inr [OF assms(1)] obtain results where
    run: "search_loop f q uid thr (vector_store st) [] st = (Inr results, st')" and
    rs: "rs = slice_to limit (sort_results results)"
    by blast
  from assms(2) have "r \<in> set results"
    using set_slice_to [of limit "sort_results results"] by (auto simp: rs set_sort_results)
  from search_loop_sound [OF run this] show ?thesis by simp
qed

lemmas ex_defs = no_faults_def example_memory_def example_entry_def example_item_def
  example_db_def tie_db_def stale_db_def damaged_db_def vector_write_fails_def odd_db_def
  one_item_page_def

lemmas search_defs = semantic_search_def search_loop.simps(2) get_memory_by_id_def cosine_def
  np_dot_def linalg_norm_def sort_results_def slice_to_def

section \<open>Tenant isolation of the search\<close>

text \<open>
  Claim C1. Whatever the query embedding, the tenant and the limit, every result that
  \<open>semantic_search\<close> returns is a record whose \<open>user_id\<close> is the querying tenant's;
  a record of any other tenant is in no result list.
\<close>

theorem semantic_search_tenant_isolation:
  assumes "semantic_search f st q uid limit thr = (Inr rs, st')"
  shows "(\<forall>r\<in>set rs. mem_user_id (sr_memory r) = Some uid) \<and>
         (\<forall>m other. mem_user_id m = Some other \<and> other \<noteq> uid \<longrightarrow> m \<notin> sr_memory ` set rs)"
proof -
  have own: "mem_user_id (sr_memory r) = Some uid" if "r \<in> set rs" for r
    using semantic_search_sound [OF assms that] by blast
  then show ?thesis by auto
qed

theorem semantic_search_tenant_isolation_witness:
  "semantic_search no_faults example_db [1, 0, 0] ''u2'' 10 (1 / 2) =
     (Inr [\<lparr>sr_memory = example_memory ''m2'' ''u2'', sr_similarity_score = Fin 1\<rparr>], example_db) \<and>
   example_memory ''m1'' ''u1'' \<notin>
     sr_memory ` set [\<lparr>sr_memory = example_memory ''m2'' ''u2'', sr_similarity_score = Fin 1\<rparr>]"
proof -
  have run: "semantic_search no_faults example_db [1, 0, 0] ''u2'' 10 (1 / 2) =
     (Inr [\<lparr>sr_memory = example_memory ''m2'' ''u2'', sr_similarity_score = Fin 1\<rparr>], example_db)"
    by (simp add: ex_defs search_defs)
  have "mem_user_id (example_memory ''m1'' ''u1'') = Some ''u1'' \<and> ''u1'' \<noteq> ''u2''"
    by (simp add: example_memory_def)
  with semantic_search_tenant_isolation [OF run] run show ?thesis by blast
qed

section \<open>The search is a pure read\<close>

text \<open>
  Claim C10. \<open>semantic_search\<close> leaves the state, and so the in-memory index
  \<open>vector_store\<close>, exactly as it was, whether it returns results or raises.
\<close>

theorem semantic_search_leaves_state:
  "snd (semantic_search f st q uid limit thr) = st \<and>
   vector_store (snd (semantic_search f st q uid limit thr)) = vector_store st"
proof -
  have "snd (semantic_search f st q uid limit thr) =
        snd (search_loop f q uid thr (vector_store st) [] st)"
    by (simp add: semantic_search_def split: prod.splits sum.splits)
  then show ?thesis by (simp add: search_loop_state)
qed

section \<open>Zero norm\<close>

lemma sum_squares_zero:
  "sum_list (map (\<lambda>x. x * x) (a :: real list)) = 0 \<longleftrightarrow> (\<forall>x\<in>set a. x = 0)"
proof (induction a)
  case Nil
  show ?case by simp
next
  case (Cons x a)
  have nn: "0 \<le> sum_list (map (\<lambda>x. x * x) a)"
    by (rule sum_list_nonneg) auto
  have "x * x + sum_list (map (\<lambda>x. x * x) a) = 0 \<longleftrightarrow>
        x * x = 0 \<and> sum_list (map (\<lambda>x. x * x) a) = 0"
    using nn by (intro add_nonneg_eq_0_iff) simp_all
  then show ?case using Cons.IH by simp
qed

lemma linalg_norm_zero: "linalg_norm a = 0 \<longleftrightarrow> (\<forall>x\<in>set a. x = 0)"
  by (simp add: linalg_norm_def sum_squares_zero)

lemma dot_zero_left:
  "\<forall>x\<in>set a. x = 0 \<Longrightarrow> sum_list (map2 (*) a (b :: real list)) = 0"
  by (induction a arbitrary: b) (auto simp: zip_Cons1 split: list.splits)

lemma dot_zero_right:
  "\<forall>x\<in>set b. x = 0 \<Longrightarrow> sum_list (map2 (*) (a :: real list) b) = 0"
  by (induction b arbitrary: a) (auto simp: zip_Cons split: list.splits)

lemma zero_norm_dot:
  "length a = length b \<Longrightarrow> linalg_norm a * linalg_norm b = 0 \<Longrightarrow> np_dot a b = Inr 0"
  by (auto simp: np_dot_def linalg_norm_zero dot_zero_left dot_zero_right)






section \<open>Sorting and cutting\<close>






section \<open>Zero-norm embeddings in the search\<close>




section \<open>Order and size of the result list\<close>




section \<open>The threshold\<close>

text \<open>
  Claim C7 says that a candidate whose similarity equals the threshold is included,
  subject only to the limit. The code has a second condition: the metadata record must be
  found and must belong to the tenant. An index entry whose record is gone is left out,
  although its similarity equals the threshold and the limit is not reached.
\<close>

theorem threshold_counterexample:
  "cosine [1, 0, 0] (ie_embedding (example_entry ''m1'' ''u1'' [1, 0, 0])) = Inr (Fin 1) \<and>
   vector_store stale_db = [(''m1'', example_entry ''m1'' ''u1'' [1, 0, 0])] \<and>
   fst (semantic_search no_faults stale_db [1, 0, 0] ''u1'' 10 1) = Inr []"
  by (simp add: ex_defs search_defs)

text \<open>
  Claim C7 as amended. The comparison with the threshold is inclusive: an index entry of
  the tenant whose similarity equals the threshold, and whose metadata record is found and
  belongs to the tenant, is among the candidates of which the search returns the first
  \<open>limit\<close>; every candidate comes from an index entry and has a similarity of at least
  the threshold, so an entry below the threshold is not among them.
\<close>

theorem threshold_is_inclusive:
  assumes "semantic_search f st q uid limit thr = (Inr rs, st')"
  shows "\<exists>results.
           search_loop f q uid thr (vector_store st) [] st = (Inr results, st') \<and>
           rs = slice_to limit (sort_results results) \<and>
           (\<forall>k vd m. (k, vd) \<in> set (vector_store st) \<and> ie_user_id vd = Some uid \<and>
                cosine q (ie_embedding vd) = Inr (Fin thr) \<and>
                fst (get_memory_by_id f st k) = Some m \<and> mem_user_id m = Some uid \<longrightarrow>
                \<lparr>sr_memory = m, sr_similarity_score = Fin thr\<rparr> \<in> set results) \<and>
           (\<forall>r\<in>set results. float_ge (sr_similarity_score r) thr \<and>
                (\<exists>k vd. (k, vd) \<in> set (vector_store st) \<and>
                   cosine q (ie_embedding vd) = Inr (sr_similarity_score r)))"
proof -
  from semantic_search_Inr [OF assms] obtain results where
    run: "search_loop f q uid thr (vector_store st) [] st = (Inr results, st')" and
    rs: "rs = slice_to limit (sort_results results)"
    by blast
  have incl: "\<lparr>sr_memory = m, sr_similarity_score = Fin thr\<rparr> \<in> set results"
    if "(k, vd) \<in> set (vector_store st)" "ie_user_id vd = Some uid"
       "cosine q (ie_embedding vd) = Inr (Fin thr)"
       "fst (get_memory_by_id f st k) = Some m" "mem_user_id m = Some uid" for k vd m
    using search_loop_complete [OF run that(1,2,3) _ that(4,5)] by simp
  have excl: "float_ge (sr_similarity_score r) thr \<and>
                (\<exists>k vd. (k, vd) \<in> set (vector_store st) \<and>
                   cosine q (ie_embedding vd) = Inr (sr_similarity_score r))"
    if "r \<in> set results" for r
    using search_loop_sound [OF run that] by auto
  from run rs incl excl show ?thesis by blast
qed

theorem threshold_is_inclusive_witness:
  "semantic_search no_faults example_db [1, 0, 0] ''u1'' 10 1 =
     (Inr [\<lparr>sr_memory = example_memory ''m1'' ''u1'', sr_similarity_score = Fin 1\<rparr>], example_db) \<and>
   (\<exists>results.
      search_loop no_faults [1, 0, 0] ''u1'' 1 (vector_store example_db) [] example_db =
        (Inr results, example_db) \<and>
      \<lparr>sr_memory = example_memory ''m1'' ''u1'', sr_similarity_score = Fin 1\<rparr> \<in> set results)"
proof -
  have run: "semantic_search no_faults example_db [1, 0, 0] ''u1'' 10 1 =
     (Inr [\<lparr>sr_memory = example_memory ''m1'' ''u1'', sr_similarity_score = Fin 1\<rparr>], example_db)"
    by (simp add: ex_defs search_defs)
  have h: "(''m1'', example_entry ''m1'' ''u1'' [1, 0, 0]) \<in> set (vector_store example_db) \<and>
     ie_user_id (example_entry ''m1'' ''u1'' [1, 0, 0]) = Some ''u1'' \<and>
     cosine [1, 0, 0] (ie_embedding (example_entry ''m1'' ''u1'' [1, 0, 0])) = Inr (Fin 1) \<and>
     fst (get_memory_by_id no_faults example_db ''m1'') = Some (example_memory ''m1'' ''u1'') \<and>
     mem_user_id (example_memory ''m1'' ''u1'') = Some ''u1''"
    by (simp add: ex_defs search_defs)
  from threshold_is_inclusive [OF run] h run show ?thesis by blast
qed

section \<open>Dictionaries\<close>




lemma keys_dict_del_list: "map fst (dict_del k kvs) = filter (\<lambda>x. x \<noteq> k) (map fst kvs)"
  by (induction k kvs rule: dict_del.induct) simp_all

lemma keys_dict_del: "k \<notin> fst ` set (dict_del k kvs)"
proof -
  have "k \<notin> set (map fst (dict_del k kvs))"
    unfolding keys_dict_del_list by simp
  then show ?thesis by simp
qed

section \<open>Creating a memory\<close>



text \<open>With DynamoDB disabled no write is attempted: the call returns None and changes nothing.\<close>

lemma create_memory_disabled:
  "dynamodb_disabled st \<Longrightarrow>
   create_memory f st memory_id now content memory_type embedding uid metadata source summary tags =
     (Inr None, st)"
  by (simp add: create_memory_def)



section \<open>Deleting a memory\<close>

text \<open>
  Claim C2 says that a second delete of the same identifier returns NotFound. The route
  answers 404 only when \<open>delete_memory\<close> returns False, and \<open>delete_memory\<close> returns
  False only when an exception was caught; it never looks whether the record exists. As
  long as DynamoDB answers, every delete succeeds, the second as the first.
\<close>

theorem second_delete_succeeds:
  assumes "\<not> dynamodb_disabled st" and "\<not> delete_memory_fails f" and "\<not> delete_vector_fails f"
  shows "fst (delete_memory_route f st k) =
           Inr \<lparr>dr_success = True, dr_message = ''Memory '' @ k @ '' deleted successfully''\<rparr> \<and>
         memories (snd (delete_memory_route f st k)) k = None \<and>
         fst (delete_memory_route f (snd (delete_memory_route f st k)) k) =
           Inr \<lparr>dr_success = True, dr_message = ''Memory '' @ k @ '' deleted successfully''\<rparr>"
  using assms by (simp add: delete_memory_route_def delete_memory_def Let_def)

theorem second_delete_succeeds_witness:
  "\<not> dynamodb_disabled example_db \<and> \<not> delete_memory_fails no_faults \<and>
   \<not> delete_vector_fails no_faults \<and>
   fst (delete_memory_route no_faults (snd (delete_memory_route no_faults example_db ''m1'')) ''m1'') =
     Inr \<lparr>dr_success = True, dr_message = ''Memory m1 deleted successfully''\<rparr>"
proof -
  have h: "\<not> dynamodb_disabled example_db" "\<not> delete_memory_fails no_faults"
    "\<not> delete_vector_fails no_faults"
    by (simp_all add: ex_defs)
  from second_delete_succeeds [OF h, of "''m1''"] h show ?thesis by simp
qed

text \<open>
  Claim C3 says that a delete verifies the ownership of the record before it removes
  anything. Neither the route nor \<open>delete_memory\<close> takes a tenant: whoever sends the
  request, and whoever owns the record, the metadata record, the stored vector and the
  index entry are removed.
\<close>

theorem delete_ignores_owner:
  assumes "\<not> dynamodb_disabled st" and "\<not> delete_memory_fails f" and "\<not> delete_vector_fails f"
    and "memories st k = Some m" and "mem_user_id m = Some owner"
  shows "fst (delete_memory_route f st k) =
           Inr \<lparr>dr_success = True, dr_message = ''Memory '' @ k @ '' deleted successfully''\<rparr> \<and>
         memories (snd (delete_memory_route f st k)) k = None \<and>
         k \<notin> fst ` set (embeddings (snd (delete_memory_route f st k))) \<and>
         k \<notin> fst ` set (vector_store (snd (delete_memory_route f st k)))"
  using assms(1-3)
  by (simp add: delete_memory_route_def delete_memory_def Let_def keys_dict_del)

theorem delete_ignores_owner_witness:
  "memories example_db ''m1'' = Some (example_memory ''m1'' ''u1'') \<and>
   mem_user_id (example_memory ''m1'' ''u1'') = Some ''u1'' \<and>
   ''m1'' \<in> fst ` set (vector_store example_db) \<and>
   memories (snd (delete_memory_route no_faults example_db ''m1'')) ''m1'' = None \<and>
   ''m1'' \<notin> fst ` set (embeddings (snd (delete_memory_route no_faults example_db ''m1''))) \<and>
   ''m1'' \<notin> fst ` set (vector_store (snd (delete_memory_route no_faults example_db ''m1'')))"
proof -
  have h: "\<not> dynamodb_disabled example_db" "\<not> delete_memory_fails no_faults"
    "\<not> delete_vector_fails no_faults"
    "memories example_db ''m1'' = Some (example_memory ''m1'' ''u1'')"
    "mem_user_id (example_memory ''m1'' ''u1'') = Some ''u1''"
    by (simp_all add: ex_defs)
  have i: "''m1'' \<in> fst ` set (vector_store example_db)"
    by (simp add: ex_defs)
  from delete_ignores_owner [OF h] h i show ?thesis by simp
qed

section \<open>Rebuilding the index\<close>







section \<open>What the chunker keeps\<close>

lemma filter_dropWhile_other:
  "(\<And>c. P c \<Longrightarrow> \<not> Q c) \<Longrightarrow> filter P (dropWhile Q xs) = filter P xs"
  by (induction xs) auto

lemma filter_strip:
  assumes "\<And>c. P c \<Longrightarrow> \<not> is_space c"
  shows "filter P (strip s) = filter P s"
proof -
  have "filter P (strip s) = rev (filter P (dropWhile is_space (rev (dropWhile is_space s))))"
    by (simp add: strip_def rev_filter)
  also have "\<dots> = rev (filter P (rev (dropWhile is_space s)))"
    using assms by (simp add: filter_dropWhile_other)
  also have "\<dots> = filter P (dropWhile is_space s)"
    by (simp add: rev_filter)
  also have "\<dots> = filter P s"
    using assms by (simp add: filter_dropWhile_other)
  finally show ?thesis .
qed

lemma filter_split_sep:
  "(\<And>c. c \<in> set sep \<Longrightarrow> \<not> P c) \<Longrightarrow>
   filter P (concat (split_sep sep cur s)) = filter P (cur @ s)"
proof (induction sep cur s rule: split_sep.induct)
  case (1 sep cur)
  show ?case by simp
next
  case (2 sep cur c cs)
  show ?case
  proof (cases "sep \<noteq> [] \<and> take (length sep) (c # cs) = sep")
    case True
    have sepf: "filter P sep = []" using "2.prems" by (simp add: filter_empty_conv)
    have "filter P (c # cs) =
          filter P (take (length sep) (c # cs)) @ filter P (drop (length sep) (c # cs))"
      by (metis append_take_drop_id filter_append)
    with True sepf have rest: "filter P (c # cs) = filter P (drop (length sep) (c # cs))"
      by simp
    from True have "filter P (concat (split_sep sep cur (c # cs))) =
          filter P cur @ filter P (concat (split_sep sep [] (drop (length sep) (c # cs))))"
      by simp
    also have "\<dots> = filter P cur @ filter P (drop (length sep) (c # cs))"
      using "2.IH"(1) [OF True "2.prems"] by simp
    finally show ?thesis using rest by simp
  next
    case False
    then have "split_sep sep cur (c # cs) = split_sep sep (cur @ [c]) cs" by auto
    with "2.IH"(2) [OF False "2.prems"] show ?thesis by simp
  qed
qed

lemma filter_sentence_loop:
  assumes sp: "\<And>c. P c \<Longrightarrow> \<not> is_space c" and fs: "\<not> P full_stop"
  shows "filter P (concat (sentence_loop mx ss chunks cur)) =
         filter P (concat chunks @ cur @ concat ss)"
proof (induction ss arbitrary: chunks cur)
  case Nil
  show ?case by (simp add: filter_strip [of P, OF sp])
next
  case (Cons s ss)
  have blank: "filter P s = []" if "strip s = []"
    using filter_strip [of P s, OF sp] that by simp
  show ?case
    by (simp add: Cons.IH filter_strip [of P, OF sp] fs blank)
qed

lemma filter_split_long_paragraph:
  assumes sp: "\<And>c. P c \<Longrightarrow> \<not> is_space c" and fs: "\<not> P full_stop"
  shows "filter P (concat (split_long_paragraph p mx)) = filter P p"
proof -
  have "filter P (concat (split_long_paragraph p mx)) =
        filter P (concat (split_sep [full_stop] [] p))"
    unfolding split_long_paragraph_def
    using filter_sentence_loop [of P mx "split_sep [full_stop] [] p" "[]" "[]", OF sp fs]
    by simp
  also have "\<dots> = filter P ([] @ p)"
    using fs by (intro filter_split_sep) simp
  finally show ?thesis by simp
qed

lemma is_space_newline: "is_space newline"
  by (simp add: is_space_def newline_def)

lemma filter_paragraph_loop:
  assumes sp: "\<And>c. P c \<Longrightarrow> \<not> is_space c" and fs: "\<not> P full_stop"
  shows "filter P (concat (paragraph_loop mx ps chunks cur)) =
         filter P (concat chunks @ cur @ concat ps)"
proof (induction ps arbitrary: chunks cur)
  case Nil
  show ?case by (simp add: filter_strip [of P, OF sp])
next
  case (Cons p ps)
  have nl: "\<not> P newline" using sp is_space_newline by blast
  show ?case
    by (simp add: Cons.IH filter_strip [of P, OF sp] nl
        filter_split_long_paragraph [of P, OF sp fs])
qed

lemma filter_split_text_into_chunks:
  assumes sp: "\<And>c. P c \<Longrightarrow> \<not> is_space c" and fs: "\<not> P full_stop"
  shows "filter P (concat (split_text_into_chunks text arg)) = filter P text"
proof -
  have nl: "\<And>c. c \<in> set [newline, newline] \<Longrightarrow> \<not> P c"
    using sp is_space_newline by auto
  have "filter P (concat (paragraph_loop mx (split_sep [newline, newline] [] text) [] [])) =
        filter P text" for mx
    using filter_paragraph_loop [of P mx "split_sep [newline, newline] [] text" "[]" "[]", OF sp fs]
      filter_split_sep [of "[newline, newline]" P "[]" "text", OF nl]
    by simp
  then show ?thesis by (simp add: split_text_into_chunks_def Let_def)
qed


lemmas chunk_defs = split_text_into_chunks_def estimate_tokens_def is_space_def
  split_long_paragraph_def full_stop_def newline_def strip_def default_max_tokens_def

text \<open>
  Claim C8 says that the concatenation of the chunks reproduces the text up to white
  space, and that exactly one chunk is returned if and only if the estimate is within the
  budget. For the text \<open>a b\<close> and a budget of 2 the estimate is 3, yet one chunk is
  returned, and it ends in a full stop \<open>U+3002\<close> that the text does not contain.
\<close>

theorem single_chunk_counterexample:
  "estimate_tokens [97, 32, 98] = 3 \<and>
   split_text_into_chunks [97, 32, 98] (Some 2) = [[97, 32, 98, 12290]] \<and>
   \<not> (length (split_text_into_chunks [97, 32, 98] (Some 2)) = 1 \<longleftrightarrow>
        estimate_tokens [97, 32, 98] \<le> 2) \<and>
   filter (\<lambda>c. \<not> is_space c) (concat (split_text_into_chunks [97, 32, 98] (Some 2))) \<noteq>
     filter (\<lambda>c. \<not> is_space c) [97, 32, 98]"
  by (simp add: chunk_defs)

text \<open>
  Claim C8 as amended. For every text and budget the chunks are in document order and do
  not overlap: their concatenation has exactly the characters of the text other than
  white space and the sentence delimiter \<open>U+3002\<close>, in the same order, none added, none
  dropped. When the estimate of the text is within the budget, one chunk is returned, the
  text itself. The converse does not hold: a text over the budget that is one sentence is
  returned as one chunk too.
\<close>

theorem chunks_keep_content_in_order:
  "filter (\<lambda>c. \<not> is_space c \<and> c \<noteq> full_stop) (concat (split_text_into_chunks txt arg)) =
     filter (\<lambda>c. \<not> is_space c \<and> c \<noteq> full_stop) txt \<and>
   (estimate_tokens txt \<le> (case arg of None \<Rightarrow> default_max_tokens | Some n \<Rightarrow> n) \<longrightarrow>
      split_text_into_chunks txt arg = [txt])"
proof
  show "filter (\<lambda>c. \<not> is_space c \<and> c \<noteq> full_stop) (concat (split_text_into_chunks txt arg)) =
     filter (\<lambda>c. \<not> is_space c \<and> c \<noteq> full_stop) txt"
    by (rule filter_split_text_into_chunks) simp_all
  show "estimate_tokens txt \<le> (case arg of None \<Rightarrow> default_max_tokens | Some n \<Rightarrow> n) \<longrightarrow>
      split_text_into_chunks txt arg = [txt]"
    by (simp add: split_text_into_chunks_def)
qed

theorem chunks_keep_content_in_order_witness:
  "estimate_tokens [97, 32, 98] \<le> (case Some 3 of None \<Rightarrow> default_max_tokens | Some n \<Rightarrow> n) \<and>
   split_text_into_chunks [97, 32, 98] (Some 3) = [[97, 32, 98]] \<and>
   split_text_into_chunks [97, 32, 98, 12290, 12290, 99, 10, 10, 100, 32, 101] (Some 2) =
     [[97, 32, 98, 12290], [99, 12290], [100, 32, 101, 12290]] \<and>
   filter (\<lambda>c. \<not> is_space c \<and> c \<noteq> full_stop)
     (concat [[97, 32, 98, 12290], [99, 12290], [100, 32, 101, 12290]]) =
   filter (\<lambda>c. \<not> is_space c \<and> c \<noteq> full_stop)
     [97, 32, 98, 12290, 12290, 99, 10, 10, 100, 32, 101]"
proof -
  have h: "estimate_tokens [97, 32, 98] \<le>
             (case Some 3 of None \<Rightarrow> default_max_tokens | Some n \<Rightarrow> n)"
    by (simp add: chunk_defs)
  have c: "split_text_into_chunks [97, 32, 98, 12290, 12290, 99, 10, 10, 100, 32, 101] (Some 2) =
     [[97, 32, 98, 12290], [99, 12290], [100, 32, 101, 12290]]"
    by (simp add: chunk_defs)
  from chunks_keep_content_in_order [of "[97, 32, 98]" "Some 3"] h
  have one: "split_text_into_chunks [97, 32, 98] (Some 3) = [[97, 32, 98]]"
    by blast
  from chunks_keep_content_in_order
    [of "[97, 32, 98, 12290, 12290, 99, 10, 10, 100, 32, 101]" "Some 2"]
  have "filter (\<lambda>c. \<not> is_space c \<and> c \<noteq> full_stop)
     (concat [[97, 32, 98, 12290], [99, 12290], [100, 32, 101, 12290]]) =
   filter (\<lambda>c. \<not> is_space c \<and> c \<noteq> full_stop)
     [97, 32, 98, 12290, 12290, 99, 10, 10, 100, 32, 101]"
    unfolding c by blast
  with h one c show ?thesis by blast
qed

end
